theory Spec2Isabelle
  imports Complex_Main
begin

section \<open>csv\_to\_json.py: the vocabulary table and its rows\<close>

text \<open>
  The script reads a table with \<open>pd.read_csv\<close>, maps every row to a dictionary and
  writes the list of dictionaries with \<open>json.dump\<close>. The model starts from the table that
  \<open>read_csv\<close> returns and the rows that \<open>df.iterrows()\<close> yields: the cells of a table
  are the values that \<open>row[...]\<close> gives. Parsing of the CSV text is the library's and is
  not modelled; an input file that is there is taken to parse, and the file system to
  accept the output.

  Python text is a \<open>string\<close> holding the UTF-8 bytes of the text, which is also what the
  output file, opened with \<open>encoding="utf-8"\<close>, receives.
\<close>

datatype error =
    FileNotFoundError
  | KeyError string
  | ValueError
  | OverflowError
  | TypeError

text \<open>
  A Python float is a finite value (kept as the rational number it denotes), one of the two
  infinities, or NaN. NaN is the missing-value marker that \<open>read_csv\<close> puts into an empty
  cell.
\<close>

datatype pyfloat = Finite rat | PosInf | NegInf | NaN

text \<open>
  The values that \<open>row[...]\<close> can return. A row of a table with a text column holds Python
  objects (\<open>PyStr\<close>, \<open>PyInt\<close>, \<open>PyFloat\<close>, \<open>PyBool\<close>); a row of a table whose columns are all
  integers, or all booleans, holds NumPy scalars (\<open>NpInt64\<close>, \<open>NpBool\<close>). A NumPy
  \<open>float64\<close> is a subclass of Python's float and is covered by \<open>PyFloat\<close>.
\<close>

datatype cell =
    PyStr string
  | PyInt int
  | PyFloat pyfloat
  | PyBool bool
  | NpInt64 int
  | NpBool bool

type_synonym series = "(string \<times> cell) list"

record dataframe =
  columns :: "string list"
  data :: "cell list list"

text \<open>\<open>for _, row in df.iterrows()\<close>: one series per data row, labelled by the columns.\<close>

definition iterrows :: "dataframe \<Rightarrow> series list" where
  "iterrows df = map (\<lambda>vs. zip (columns df) vs) (data df)"

text \<open>\<open>row[k]\<close>: the value under the label, \<open>KeyError\<close> when the label is absent.\<close>

definition getitem :: "series \<Rightarrow> string \<Rightarrow> error + cell" where
  "getitem row k = (case map_of row k of None \<Rightarrow> Inl (KeyError k) | Some v \<Rightarrow> Inr v)"

text \<open>\<open>pd.isna\<close> on a scalar cell: true for NaN only.\<close>

fun isna :: "cell \<Rightarrow> bool" where
  "isna (PyFloat NaN) = True"
| "isna _ = False"

subsection \<open>The builtin \<open>int\<close>\<close>

text \<open>
  \<open>int\<close> of a text: surrounding white space is dropped, then an optional sign and decimal
  digits follow, with single underscores allowed between digits. Only ASCII digits and
  ASCII white space are recognised here.
\<close>

definition is_space :: "char \<Rightarrow> bool" where
  "is_space c = (let n = (of_char c :: nat) in (9 \<le> n \<and> n \<le> 13) \<or> (28 \<le> n \<and> n \<le> 32))"

definition is_digit :: "char \<Rightarrow> bool" where
  "is_digit c = (let n = (of_char c :: nat) in 48 \<le> n \<and> n \<le> 57)"

definition digit_val :: "char \<Rightarrow> nat" where
  "digit_val c = of_char c - 48"

definition strip :: "string \<Rightarrow> string" where
  "strip s = rev (dropWhile is_space (rev (dropWhile is_space s)))"

fun digits_from :: "nat \<Rightarrow> string \<Rightarrow> nat option" where
  "digits_from acc [] = Some acc"
| "digits_from acc [c] =
     (if is_digit c then Some (10 * acc + digit_val c) else None)"
| "digits_from acc (c # d # cs) =
     (if is_digit c then digits_from (10 * acc + digit_val c) (d # cs)
      else if c = CHR ''_'' \<and> is_digit d then digits_from (10 * acc + digit_val d) cs
      else None)"

definition digits :: "string \<Rightarrow> nat option" where
  "digits s = (case s of [] \<Rightarrow> None
               | c # cs \<Rightarrow> if is_digit c then digits_from (digit_val c) cs else None)"

definition int_of_str :: "string \<Rightarrow> int option" where
  "int_of_str s =
     (case strip s of
        [] \<Rightarrow> None
      | c # cs \<Rightarrow>
          if c = CHR ''-'' then map_option (\<lambda>n. - int n) (digits cs)
          else if c = CHR ''+'' then map_option int (digits cs)
          else map_option int (digits (c # cs)))"

text \<open>\<open>int\<close> of a float truncates towards zero.\<close>

definition trunc :: "rat \<Rightarrow> int" where
  "trunc x = (if 0 \<le> x then \<lfloor>x\<rfloor> else \<lceil>x\<rceil>)"

fun py_int :: "cell \<Rightarrow> error + int" where
  "py_int (PyStr s) = (case int_of_str s of None \<Rightarrow> Inl ValueError | Some n \<Rightarrow> Inr n)"
| "py_int (PyInt n) = Inr n"
| "py_int (PyFloat (Finite x)) = Inr (trunc x)"
| "py_int (PyFloat PosInf) = Inl OverflowError"
| "py_int (PyFloat NegInf) = Inl OverflowError"
| "py_int (PyFloat NaN) = Inl ValueError"
| "py_int (PyBool b) = Inr (if b then 1 else 0)"
| "py_int (NpInt64 n) = Inr n"
| "py_int (NpBool b) = Inr (if b then 1 else 0)"

subsection \<open>The row mapping\<close>

text \<open>The objects that end up in \<open>result\<close> and that \<open>json.dump\<close> serialises.\<close>

datatype pyobj =
    PyNone
  | Val cell
  | PyList "pyobj list"
  | PyDict "(string \<times> pyobj) list"

type_synonym entry = "(string \<times> pyobj) list"

text \<open>
  An exception ends the evaluation: \<open>m \<bind> f\<close> in the error monad, written out.
\<close>

definition and_then :: "error + 'a \<Rightarrow> ('a \<Rightarrow> error + 'b) \<Rightarrow> error + 'b" where
  "and_then m f = (case m of Inl e \<Rightarrow> Inl e | Inr x \<Rightarrow> f x)"

text \<open>
  The dictionary display of the loop body. Its items are evaluated in the order they are
  written, so the first lookup or conversion that raises decides the error.
\<close>

definition map_row :: "series \<Rightarrow> error + entry" where
  "map_row row =
     and_then (getitem row ''Word'') (\<lambda>word.
     and_then (getitem row ''English'') (\<lambda>english.
     and_then (getitem row ''Hanja/Ref.'') (\<lambda>hanja.
     and_then (getitem row ''Classification'') (\<lambda>classification.
     and_then (getitem row ''Frequency Rank'') (\<lambda>rank.
     and_then (py_int rank) (\<lambda>frequency.
     and_then (getitem row ''Complexity'') (\<lambda>complexity.
     and_then (getitem row ''Wordreference Link'') (\<lambda>wordreference.
     and_then (getitem row ''Wiktionary Link'') (\<lambda>wiktionary.
       Inr [(''korean'', Val word),
            (''en'', Val english),
            (''zh'', PyNone),
            (''hanja'', if isna hanja then PyNone else Val hanja),
            (''classification'', Val classification),
            (''frequency'', Val (PyInt frequency)),
            (''complexity'', Val complexity),
            (''wordreferencelink'', Val wordreference),
            (''wiktionarylink'', Val wiktionary)])))))))))"

text \<open>
  The loop: \<open>result\<close> starts empty and every row appends its entry; an exception in the
  loop body ends the run.
\<close>

fun build_result :: "series list \<Rightarrow> entry list \<Rightarrow> error + entry list" where
  "build_result [] result = Inr result"
| "build_result (row # rows) result =
     (case map_row row of
        Inl e \<Rightarrow> Inl e
      | Inr entry \<Rightarrow> build_result rows (result @ [entry]))"

subsection \<open>\<open>json.dump\<close> with \<open>ensure_ascii=False\<close> and an indentation\<close>

text \<open>
  The encoder yields chunks of text that \<open>json.dump\<close> writes to the file one after the
  other. An encoding is the text yielded so far, with the exception when one was raised:
  what was yielded before the exception has been written.
\<close>

type_synonym out = "string \<times> error option"

definition yield :: "string \<Rightarrow> out" where
  "yield s = (s, None)"

definition raise :: "error \<Rightarrow> out" where
  "raise e = ([], Some e)"

definition seq :: "out \<Rightarrow> out \<Rightarrow> out" where
  "seq a b = (case snd a of Some e \<Rightarrow> a | None \<Rightarrow> (fst a @ fst b, snd b))"

text \<open>\<open>int.__repr__\<close>: the decimal digits, with a minus sign for a negative number.\<close>

function str_nat :: "nat \<Rightarrow> string" where
  "str_nat n =
     (if n < 10 then [''0123456789'' ! n]
      else str_nat (n div 10) @ [''0123456789'' ! (n mod 10)])"
  by pat_completeness auto
termination
  by (relation "measure id") auto

declare str_nat.simps [simp del]

definition intstr :: "int \<Rightarrow> string" where
  "intstr i = (if i < 0 then CHR ''-'' # str_nat (nat (- i)) else str_nat (nat i))"

text \<open>
  \<open>floatstr\<close>: the three special values by name (\<open>allow_nan\<close> is left at its default), a
  finite value through \<open>float.__repr__\<close>, which is a parameter of the model.
\<close>

fun floatstr :: "(rat \<Rightarrow> string) \<Rightarrow> pyfloat \<Rightarrow> string" where
  "floatstr float_repr NaN = ''NaN''"
| "floatstr float_repr PosInf = ''Infinity''"
| "floatstr float_repr NegInf = ''-Infinity''"
| "floatstr float_repr (Finite x) = float_repr x"

text \<open>
  \<open>py_encode_basestring\<close>: the text between double quotes; the backslash, the double
  quote and the characters below \<open>0x20\<close> are escaped, every other character is kept.
\<close>

definition hex_digit :: "nat \<Rightarrow> char" where
  "hex_digit n = ''0123456789abcdef'' ! n"

definition escape_char :: "char \<Rightarrow> string" where
  "escape_char c =
     (if c = CHR 0x5C then [CHR 0x5C, CHR 0x5C]
      else if c = CHR 0x22 then [CHR 0x5C, CHR 0x22]
      else if c = CHR 0x08 then [CHR 0x5C, CHR ''b'']
      else if c = CHR 0x0C then [CHR 0x5C, CHR ''f'']
      else if c = CHR 0x0A then [CHR 0x5C, CHR ''n'']
      else if c = CHR 0x0D then [CHR 0x5C, CHR ''r'']
      else if c = CHR 0x09 then [CHR 0x5C, CHR ''t'']
      else if (of_char c :: nat) < 32
        then [CHR 0x5C, CHR ''u'', CHR ''0'', CHR ''0'',
              hex_digit (of_char c div 16), hex_digit (of_char c mod 16)]
      else [c])"

definition encode_basestring :: "string \<Rightarrow> string" where
  "encode_basestring s = CHR 0x22 # concat (map escape_char s) @ [CHR 0x22]"

text \<open>
  A value that is neither text, \<open>None\<close>, a bool, an int, a float, a list nor a dictionary
  goes to the encoder's \<open>default\<close>, which raises \<open>TypeError\<close>: the NumPy scalars.
\<close>

fun encode_cell :: "(rat \<Rightarrow> string) \<Rightarrow> cell \<Rightarrow> out" where
  "encode_cell float_repr (PyStr s) = yield (encode_basestring s)"
| "encode_cell float_repr (PyBool b) = yield (if b then ''true'' else ''false'')"
| "encode_cell float_repr (PyInt n) = yield (intstr n)"
| "encode_cell float_repr (PyFloat f) = yield (floatstr float_repr f)"
| "encode_cell float_repr (NpInt64 n) = raise TypeError"
| "encode_cell float_repr (NpBool b) = raise TypeError"

definition newline_indent :: "nat \<Rightarrow> nat \<Rightarrow> string" where
  "newline_indent indent level = CHR 0x0A # replicate (indent * level) CHR '' ''"

text \<open>
  \<open>_iterencode\<close>, \<open>_iterencode_list\<close> and \<open>_iterencode_dict\<close> with an indentation of
  \<open>indent\<close> spaces, the item separator \<open>,\<close> and the key separator \<open>: \<close>. The two loops
  take the text that goes before the next item (\<open>buf\<close>, and \<open>first\<close> for a dictionary).
\<close>

fun iterencode :: "(rat \<Rightarrow> string) \<Rightarrow> nat \<Rightarrow> pyobj \<Rightarrow> nat \<Rightarrow> out"
  and iterencode_list :: "(rat \<Rightarrow> string) \<Rightarrow> nat \<Rightarrow> string \<Rightarrow> pyobj list \<Rightarrow> nat \<Rightarrow> out"
  and iterencode_dict :: "(rat \<Rightarrow> string) \<Rightarrow> nat \<Rightarrow> bool \<Rightarrow> (string \<times> pyobj) list \<Rightarrow> nat \<Rightarrow> out"
where
  "iterencode float_repr indent PyNone level = yield ''null''"
| "iterencode float_repr indent (Val v) level = encode_cell float_repr v"
| "iterencode float_repr indent (PyList lst) level =
     (if lst = [] then yield ''[]''
      else seq (iterencode_list float_repr indent
                  (CHR ''['' # newline_indent indent (level + 1)) lst (level + 1))
               (yield (newline_indent indent level @ '']'')))"
| "iterencode float_repr indent (PyDict dct) level =
     (if dct = [] then yield ''{}''
      else seq (yield (CHR ''{'' # newline_indent indent (level + 1)))
          (seq (iterencode_dict float_repr indent True dct (level + 1))
               (yield (newline_indent indent level @ ''}''))))"
| "iterencode_list float_repr indent buf [] level = yield []"
| "iterencode_list float_repr indent buf (v # rest) level =
     seq (yield buf)
    (seq (iterencode float_repr indent v level)
         (iterencode_list float_repr indent
            (CHR '','' # newline_indent indent level) rest level))"
| "iterencode_dict float_repr indent first [] level = yield []"
| "iterencode_dict float_repr indent first ((key, v) # rest) level =
     seq (yield ((if first then [] else CHR '','' # newline_indent indent level)
                 @ encode_basestring key @ '': ''))
    (seq (iterencode float_repr indent v level)
         (iterencode_dict float_repr indent False rest level))"

definition json_dump :: "(rat \<Rightarrow> string) \<Rightarrow> pyobj \<Rightarrow> nat \<Rightarrow> out" where
  "json_dump float_repr obj indent = iterencode float_repr indent obj 0"

subsection \<open>The run\<close>

text \<open>
  The two files of the run: the table that \<open>read_csv\<close> finds under the input path
  (\<open>None\<close> when there is no such file) and the text of \<open>topik_vocab.json\<close> (\<open>None\<close> when
  it does not exist).
\<close>

record files =
  csv_file :: "dataframe option"
  json_file :: "string option"

definition read_csv :: "files \<Rightarrow> error + dataframe" where
  "read_csv fs = (case csv_file fs of None \<Rightarrow> Inl FileNotFoundError | Some df \<Rightarrow> Inr df)"

text \<open>
  The script. An exception before \<open>open\<close> leaves the files as they are. \<open>open\<close> with mode
  \<open>"w"\<close> creates or empties the output file, which then receives what \<open>json.dump\<close>
  yields. The result is the exception that ended the run, if any, and the files.
\<close>

definition run :: "(rat \<Rightarrow> string) \<Rightarrow> files \<Rightarrow> error option \<times> files" where
  "run float_repr fs =
     (case read_csv fs of
        Inl e \<Rightarrow> (Some e, fs)
      | Inr df \<Rightarrow>
          (case build_result (iterrows df) [] of
             Inl e \<Rightarrow> (Some e, fs)
           | Inr result \<Rightarrow>
               (let written = json_dump float_repr (PyList (map PyDict result)) 2
                in (snd written, fs\<lparr>json_file := Some (fst written)\<rparr>))))"

section \<open>Vocabulary of the properties\<close>

text \<open>
  The eight recognised columns, in the order the loop body reads them: four before
  \<open>Frequency Rank\<close>, then \<open>Frequency Rank\<close> and its conversion, then the last three.
\<close>

definition read_before_rank :: "string list" where
  "read_before_rank = [''Word'', ''English'', ''Hanja/Ref.'', ''Classification'']"

definition read_after_rank :: "string list" where
  "read_after_rank = [''Complexity'', ''Wordreference Link'', ''Wiktionary Link'']"

definition recognized_columns :: "string list" where
  "recognized_columns = read_before_rank @ [''Frequency Rank''] @ read_after_rank"

definition has_column :: "series \<Rightarrow> string \<Rightarrow> bool" where
  "has_column row k = (case getitem row k of Inl e \<Rightarrow> False | Inr v \<Rightarrow> True)"

text \<open>A cell is numeric when \<open>int\<close> turns it into an integer.\<close>

definition numeric :: "cell \<Rightarrow> bool" where
  "numeric c = (case py_int c of Inl e \<Rightarrow> False | Inr n \<Rightarrow> True)"


text \<open>The two exceptions that \<open>int\<close> raises on a cell it cannot convert.\<close>

definition conversion_error :: "error \<Rightarrow> bool" where
  "conversion_error e = (e = ValueError \<or> e = OverflowError)"

fun missing_field_error :: "error \<Rightarrow> bool" where
  "missing_field_error (KeyError k) = True"
| "missing_field_error _ = False"




text \<open>The columns that go to a field of the record as they are, with the field's key.\<close>

definition passed_through :: "(string \<times> string) list" where
  "passed_through =
     [(''Word'', ''korean''), (''English'', ''en''), (''Classification'', ''classification''),
      (''Complexity'', ''complexity''), (''Wordreference Link'', ''wordreferencelink''),
      (''Wiktionary Link'', ''wiktionarylink'')]"

subsection \<open>The layout of the output file, as the specification words it\<close>

text \<open>
  A JSON array of objects, every line indented by two spaces per nesting depth: the
  brackets of the array at depth 0, the braces of an object at depth 1, and its members at
  depth 2 as \<open>"key": value\<close>, in the order of the keys. Members and objects are
  separated by a comma at the end of the line. An empty array is \<open>[]\<close>.
\<close>

definition json_keys :: "string list" where
  "json_keys = [''korean'', ''en'', ''zh'', ''hanja'', ''classification'', ''frequency'',
                ''complexity'', ''wordreferencelink'', ''wiktionarylink'']"

definition quoted :: "string \<Rightarrow> string" where
  "quoted s = CHR 0x22 # s @ [CHR 0x22]"

definition escaped :: "string \<Rightarrow> string" where
  "escaped s = concat (map escape_char s)"

fun value_text :: "(rat \<Rightarrow> string) \<Rightarrow> pyobj \<Rightarrow> string" where
  "value_text float_repr PyNone = ''null''"
| "value_text float_repr (Val (PyStr s)) = quoted (escaped s)"
| "value_text float_repr (Val (PyInt n)) = intstr n"
| "value_text float_repr (Val (PyFloat x)) = floatstr float_repr x"
| "value_text float_repr (Val (PyBool b)) = (if b then ''true'' else ''false'')"
| "value_text float_repr v = []"

text \<open>The values of a record are \<open>None\<close> or cells.\<close>

fun scalar :: "pyobj \<Rightarrow> bool" where
  "scalar PyNone = True"
| "scalar (Val c) = True"
| "scalar v = False"

text \<open>The values that the encoder cannot serialise: the NumPy scalars.\<close>

fun numpy_scalar :: "pyobj \<Rightarrow> bool" where
  "numpy_scalar (Val (NpInt64 n)) = True"
| "numpy_scalar (Val (NpBool b)) = True"
| "numpy_scalar v = False"

definition spaces :: "nat \<Rightarrow> string" where
  "spaces depth = replicate (2 * depth) CHR '' ''"

fun comma_lines :: "string list \<Rightarrow> string" where
  "comma_lines [] = []"
| "comma_lines [l] = l"
| "comma_lines (l # m # ls) = l @ [CHR '','', CHR 0x0A] @ comma_lines (m # ls)"

definition member_text :: "(rat \<Rightarrow> string) \<Rightarrow> string \<times> pyobj \<Rightarrow> string" where
  "member_text float_repr m = spaces 2 @ quoted (fst m) @ '': '' @ value_text float_repr (snd m)"

definition object_text :: "(rat \<Rightarrow> string) \<Rightarrow> entry \<Rightarrow> string" where
  "object_text float_repr e =
     spaces 1 @ ''{'' @ [CHR 0x0A] @ comma_lines (map (member_text float_repr) e)
     @ [CHR 0x0A] @ spaces 1 @ ''}''"

definition array_text :: "(rat \<Rightarrow> string) \<Rightarrow> entry list \<Rightarrow> string" where
  "array_text float_repr es =
     (if es = [] then ''[]''
      else ''['' @ [CHR 0x0A] @ comma_lines (map (object_text float_repr) es)
           @ [CHR 0x0A] @ '']'')"

subsection \<open>Example tables\<close>

text \<open>
  \<open>float.__repr__\<close> on the floats whose value is an integer below \<open>10\<^sup>1\<^sup>6\<close>; the
  examples hold no other float.
\<close>

definition repr_integral :: "rat \<Rightarrow> string" where
  "repr_integral x = intstr \<lfloor>x\<rfloor> @ ''.0''"

text \<open>
  The row of the specification's scenario; the Korean word is the six bytes of its UTF-8
  encoding, and the empty \<open>Hanja/Ref.\<close> cell is the NaN that \<open>read_csv\<close> makes of it.
\<close>

definition annyeong :: "string" where
  "annyeong = [CHR 0xEC, CHR 0x95, CHR 0x88, CHR 0xEB, CHR 0x85, CHR 0x95]"

definition scenario_cells :: "cell list" where
  "scenario_cells =
     [PyStr annyeong, PyStr ''hello'', PyFloat NaN, PyStr ''greeting'', PyInt 1,
      PyStr ''A1'', PyStr ''http://x'', PyStr ''http://y'']"

definition scenario_table :: "dataframe" where
  "scenario_table = \<lparr>columns = recognized_columns, data = [scenario_cells]\<rparr>"

definition scenario_files :: "files" where
  "scenario_files = \<lparr>csv_file = Some scenario_table, json_file = None\<rparr>"

definition scenario_entry :: "entry" where
  "scenario_entry =
     [(''korean'', Val (PyStr annyeong)), (''en'', Val (PyStr ''hello'')), (''zh'', PyNone),
      (''hanja'', PyNone), (''classification'', Val (PyStr ''greeting'')),
      (''frequency'', Val (PyInt 1)), (''complexity'', Val (PyStr ''A1'')),
      (''wordreferencelink'', Val (PyStr ''http://x'')),
      (''wiktionarylink'', Val (PyStr ''http://y''))]"



text \<open>A table without the \<open>Word\<close> column whose rank is the text \<open>abc\<close>.\<close>

definition wordless_table :: "dataframe" where
  "wordless_table =
     \<lparr>columns = [''English'', ''Hanja/Ref.'', ''Classification'', ''Frequency Rank'',
                 ''Complexity'', ''Wordreference Link'', ''Wiktionary Link''],
      data = [[PyStr ''hello'', PyFloat NaN, PyStr ''greeting'', PyStr ''abc'',
               PyStr ''A1'', PyStr ''http://x'', PyStr ''http://y'']]\<rparr>"


text \<open>
  A table whose eight columns all hold integers: \<open>iterrows\<close> yields rows of NumPy
  integers.
\<close>

definition integer_table :: "dataframe" where
  "integer_table =
     \<lparr>columns = recognized_columns,
      data = [[NpInt64 1, NpInt64 2, NpInt64 3, NpInt64 4, NpInt64 5, NpInt64 6,
               NpInt64 7, NpInt64 8]]\<rparr>"

definition integer_entry :: "entry" where
  "integer_entry =
     [(''korean'', Val (NpInt64 1)), (''en'', Val (NpInt64 2)), (''zh'', PyNone),
      (''hanja'', Val (NpInt64 3)), (''classification'', Val (NpInt64 4)),
      (''frequency'', Val (PyInt 5)), (''complexity'', Val (NpInt64 6)),
      (''wordreferencelink'', Val (NpInt64 7)), (''wiktionarylink'', Val (NpInt64 8))]"

text \<open>What \<open>json.dump\<close> has written of that table's records when it raises.\<close>

definition integer_written :: "string" where
  "integer_written =
     ''['' @ [CHR 0x0A] @ ''  {'' @ [CHR 0x0A] @ ''    '' @ quoted ''korean'' @ '': ''"

definition wordless_files :: "files" where
  "wordless_files = \<lparr>csv_file = Some wordless_table, json_file = None\<rparr>"


definition integer_files :: "files" where
  "integer_files = \<lparr>csv_file = Some integer_table, json_file = None\<rparr>"


text \<open>The scenario's table with the text \<open>abc\<close> as the rank.\<close>

definition unranked_table :: "dataframe" where
  "unranked_table =
     \<lparr>columns = recognized_columns, data = [scenario_cells [4 := PyStr ''abc'']]\<rparr>"

definition unranked_files :: "files" where
  "unranked_files = \<lparr>csv_file = Some unranked_table, json_file = None\<rparr>"

text \<open>The scenario's row with an empty \<open>Word\<close> cell.\<close>

definition nameless_row :: "series" where
  "nameless_row = zip recognized_columns (scenario_cells [0 := PyFloat NaN])"

section \<open>Auxiliary facts\<close>

subsection \<open>The loop over the rows\<close>

lemma and_then_Inr_iff: "and_then m f = Inr y \<longleftrightarrow> (\<exists>x. m = Inr x \<and> f x = Inr y)"
  by (cases m) (simp_all add: and_then_def)

lemma and_then_Inl_iff: "and_then m f = Inl e \<longleftrightarrow> m = Inl e \<or> (\<exists>x. m = Inr x \<and> f x = Inl e)"
  by (cases m) (simp_all add: and_then_def)

lemma and_then_Inr [simp]: "and_then (Inr x) f = f x"
  by (simp add: and_then_def)

lemma and_then_Inl [simp]: "and_then (Inl e) f = Inl e"
  by (simp add: and_then_def)

lemma map_row_Inr:
  "map_row row = Inr e \<longleftrightarrow>
     (\<exists>word english hanja classification rank frequency complexity wordreference wiktionary.
        getitem row ''Word'' = Inr word \<and>
        getitem row ''English'' = Inr english \<and>
        getitem row ''Hanja/Ref.'' = Inr hanja \<and>
        getitem row ''Classification'' = Inr classification \<and>
        getitem row ''Frequency Rank'' = Inr rank \<and>
        py_int rank = Inr frequency \<and>
        getitem row ''Complexity'' = Inr complexity \<and>
        getitem row ''Wordreference Link'' = Inr wordreference \<and>
        getitem row ''Wiktionary Link'' = Inr wiktionary \<and>
        e = [(''korean'', Val word), (''en'', Val english), (''zh'', PyNone),
             (''hanja'', if isna hanja then PyNone else Val hanja),
             (''classification'', Val classification),
             (''frequency'', Val (PyInt frequency)),
             (''complexity'', Val complexity),
             (''wordreferencelink'', Val wordreference),
             (''wiktionarylink'', Val wiktionary)])"
  unfolding map_row_def and_then_Inr_iff by auto

lemma build_result_acc:
  "build_result rows acc =
     (case build_result rows [] of Inl e \<Rightarrow> Inl e | Inr result \<Rightarrow> Inr (acc @ result))"
proof (induction rows arbitrary: acc)
  case Nil
  show ?case by simp
next
  case (Cons row rows)
  show ?case
  proof (cases "map_row row")
    case (Inl e)
    then show ?thesis by simp
  next
    case (Inr entry)
    have l: "build_result (row # rows) acc =
        (case build_result rows [] of Inl e \<Rightarrow> Inl e | Inr result \<Rightarrow> Inr (acc @ entry # result))"
      using Inr Cons.IH [of "acc @ [entry]"] by (simp split: sum.splits)
    have r: "build_result (row # rows) [] =
        (case build_result rows [] of Inl e \<Rightarrow> Inl e | Inr result \<Rightarrow> Inr (entry # result))"
      using Inr Cons.IH [of "[entry]"] by (simp split: sum.splits)
    show ?thesis unfolding l r by (simp split: sum.splits)
  qed
qed

lemma build_result_Cons:
  "build_result (row # rows) [] =
     (case map_row row of
        Inl e \<Rightarrow> Inl e
      | Inr entry \<Rightarrow> (case build_result rows [] of Inl e \<Rightarrow> Inl e
                      | Inr result \<Rightarrow> Inr (entry # result)))"
proof (cases "map_row row")
  case (Inl e)
  then show ?thesis by simp
next
  case (Inr entry)
  then show ?thesis
    using build_result_acc [of rows "[entry]"] by (simp split: sum.splits)
qed

lemma build_result_Inr_iff:
  "build_result rows [] = Inr result \<longleftrightarrow> list_all2 (\<lambda>row entry. map_row row = Inr entry) rows result"
proof (induction rows arbitrary: result)
  case Nil
  show ?case by auto
next
  case (Cons row rows)
  show ?case
  proof (cases "map_row row")
    case (Inl e)
    then show ?thesis
      unfolding build_result_Cons by (auto simp: list_all2_Cons1)
  next
    case (Inr entry)
    show ?thesis
    proof (cases "build_result rows []")
      case (Inl e)
      then have "\<not> list_all2 (\<lambda>row entry. map_row row = Inr entry) rows es" for es
        using Cons.IH [of es] by simp
      then show ?thesis
        unfolding build_result_Cons using Inr Inl by (auto simp: list_all2_Cons1)
    next
      case rest: (Inr es)
      then have "list_all2 (\<lambda>row entry. map_row row = Inr entry) rows zs \<longleftrightarrow> zs = es" for zs
        using Cons.IH [of zs] by auto
      then show ?thesis
        unfolding build_result_Cons using Inr rest by (auto simp: list_all2_Cons1)
    qed
  qed
qed

lemma build_result_Inl_iff:
  "build_result rows [] = Inl e \<longleftrightarrow>
     (\<exists>i < length rows. (\<forall>j < i. \<exists>entry. map_row (rows ! j) = Inr entry) \<and> map_row (rows ! i) = Inl e)"
proof (induction rows)
  case Nil
  show ?case by simp
next
  case (Cons row rows)
  show ?case
  proof (cases "map_row row")
    case (Inl e')
    have "build_result (row # rows) [] = Inl e \<longleftrightarrow> e' = e"
      unfolding build_result_Cons using Inl by simp
    moreover have "(\<exists>i < length (row # rows). (\<forall>j < i. \<exists>entry. map_row ((row # rows) ! j) = Inr entry) \<and> map_row ((row # rows) ! i) = Inl e) \<longleftrightarrow> e' = e"
    proof
      assume "\<exists>i < length (row # rows). (\<forall>j < i. \<exists>entry. map_row ((row # rows) ! j) = Inr entry) \<and> map_row ((row # rows) ! i) = Inl e"
      then obtain i where i: "\<forall>j < i. \<exists>entry. map_row ((row # rows) ! j) = Inr entry" "map_row ((row # rows) ! i) = Inl e"
        by blast
      show "e' = e"
      proof (cases i)
        case 0
        with i Inl show ?thesis by simp
      next
        case (Suc k)
        with i(1) have "\<exists>entry. map_row ((row # rows) ! 0) = Inr entry" by blast
        with Inl show ?thesis by simp
      qed
    next
      assume "e' = e"
      with Inl have "(\<forall>j < 0. \<exists>entry. map_row ((row # rows) ! j) = Inr entry) \<and> map_row ((row # rows) ! 0) = Inl e"
        by simp
      then show "\<exists>i < length (row # rows). (\<forall>j < i. \<exists>entry. map_row ((row # rows) ! j) = Inr entry) \<and> map_row ((row # rows) ! i) = Inl e"
        by (intro exI [of _ 0]) simp
    qed
    ultimately show ?thesis by simp
  next
    case (Inr entry)
    have "build_result (row # rows) [] = Inl e \<longleftrightarrow> build_result rows [] = Inl e"
      unfolding build_result_Cons using Inr by (simp split: sum.splits)
    moreover have "(\<exists>i < length (row # rows). (\<forall>j < i. \<exists>entry. map_row ((row # rows) ! j) = Inr entry) \<and> map_row ((row # rows) ! i) = Inl e)
       \<longleftrightarrow> (\<exists>i < length rows. (\<forall>j < i. \<exists>entry. map_row (rows ! j) = Inr entry) \<and> map_row (rows ! i) = Inl e)"
      (is "?L \<longleftrightarrow> ?R")
    proof
      assume ?L
      then obtain i where i: "i < length (row # rows)" "\<forall>j < i. \<exists>entry. map_row ((row # rows) ! j) = Inr entry" "map_row ((row # rows) ! i) = Inl e"
        by blast
      from i(3) Inr obtain k where k: "i = Suc k" by (cases i) auto
      have "\<forall>j < k. \<exists>entry. map_row (rows ! j) = Inr entry"
      proof (intro allI impI)
        fix j assume "j < k"
        then have "Suc j < i" using k by simp
        with i(2) have "\<exists>entry. map_row ((row # rows) ! Suc j) = Inr entry" by blast
        then show "\<exists>entry. map_row (rows ! j) = Inr entry" by simp
      qed
      moreover have "k < length rows" "map_row (rows ! k) = Inl e" using i k by simp_all
      ultimately show ?R by blast
    next
      assume ?R
      then obtain i where i: "i < length rows" "\<forall>j < i. \<exists>entry. map_row (rows ! j) = Inr entry" "map_row (rows ! i) = Inl e"
        by blast
      have "\<forall>j < Suc i. \<exists>entry. map_row ((row # rows) ! j) = Inr entry"
      proof (intro allI impI)
        fix j assume "j < Suc i"
        then show "\<exists>entry. map_row ((row # rows) ! j) = Inr entry"
          using Inr i(2) by (cases j) auto
      qed
      moreover have "Suc i < length (row # rows)" "map_row ((row # rows) ! Suc i) = Inl e" using i by simp_all
      ultimately show ?L by blast
    qed
    ultimately show ?thesis using Cons.IH by simp
  qed
qed

subsection \<open>The encoder\<close>

lemma seq_yield: "seq (yield s) b = (s @ fst b, snd b)"
  by (simp add: seq_def yield_def)

lemma snd_seq_None: "snd (seq a b) = None \<longleftrightarrow> snd a = None \<and> snd b = None"
  by (cases "snd a") (simp_all add: seq_def)

lemma fst_seq: "snd a = None \<Longrightarrow> fst (seq a b) = fst a @ fst b"
  by (simp add: seq_def)

lemma yield_simps [simp]: "fst (yield s) = s" "snd (yield s) = None"
  by (simp_all add: yield_def)

lemma raise_simps [simp]: "fst (raise e) = []" "snd (raise e) = Some e"
  by (simp_all add: raise_def)

lemma newline_indent_spaces: "newline_indent 2 level = CHR 0x0A # spaces level"
  by (simp add: newline_indent_def spaces_def)

lemma encode_basestring_quoted: "encode_basestring s = quoted (escaped s)"
  by (simp add: encode_basestring_def quoted_def escaped_def)

lemma encode_cell_text:
  "snd (encode_cell float_repr c) = None \<Longrightarrow> fst (encode_cell float_repr c) = value_text float_repr (Val c)"
  by (cases c) (simp_all add: encode_basestring_quoted)

lemma iterencode_scalar_text:
  "scalar v \<Longrightarrow> snd (iterencode float_repr indent v level) = None \<Longrightarrow>
     fst (iterencode float_repr indent v level) = value_text float_repr v"
  by (cases v) (simp_all add: encode_cell_text)

lemma comma_lines_Cons:
  "comma_lines (l # ls) = l @ concat (map (\<lambda>m. CHR '','' # CHR 0x0A # m) ls)"
  by (induction ls arbitrary: l) simp_all

lemma iterencode_dict_rest:
  assumes "\<forall>m \<in> set items. scalar (snd m) \<and> escaped (fst m) = fst m"
    and "snd (iterencode_dict float_repr 2 False items 2) = None"
  shows "fst (iterencode_dict float_repr 2 False items 2) =
           concat (map (\<lambda>m. CHR '','' # CHR 0x0A # member_text float_repr m) items)"
  using assms
proof (induction items)
  case Nil
  show ?case by simp
next
  case (Cons m items)
  obtain k v where m: "m = (k, v)" by (cases m)
  from Cons.prems(2) have ok: "snd (iterencode float_repr 2 v 2) = None"
    "snd (iterencode_dict float_repr 2 False items 2) = None"
    by (simp_all add: m snd_seq_None)
  have v: "fst (iterencode float_repr 2 v 2) = value_text float_repr v"
    using Cons.prems(1) ok(1) by (simp add: m iterencode_scalar_text)
  have k: "encode_basestring k = quoted k"
    using Cons.prems(1) by (simp add: m encode_basestring_quoted)
  have rest: "fst (iterencode_dict float_repr 2 False items 2) =
           concat (map (\<lambda>m. CHR '','' # CHR 0x0A # member_text float_repr m) items)"
    using Cons.IH Cons.prems(1) ok(2) by simp
  show ?case
    by (simp add: m seq_yield fst_seq ok v k rest member_text_def newline_indent_spaces)
qed

lemma iterencode_dict_first:
  assumes "\<forall>m \<in> set (m # items). scalar (snd m) \<and> escaped (fst m) = fst m"
    and "snd (iterencode_dict float_repr 2 True (m # items) 2) = None"
  shows "spaces 2 @ fst (iterencode_dict float_repr 2 True (m # items) 2) =
           comma_lines (map (member_text float_repr) (m # items))"
proof -
  obtain k v where m: "m = (k, v)" by (cases m)
  from assms(2) have ok: "snd (iterencode float_repr 2 v 2) = None"
    "snd (iterencode_dict float_repr 2 False items 2) = None"
    by (simp_all add: m snd_seq_None)
  have v: "fst (iterencode float_repr 2 v 2) = value_text float_repr v"
    using assms(1) ok(1) by (simp add: m iterencode_scalar_text)
  have k: "encode_basestring k = quoted k"
    using assms(1) by (simp add: m encode_basestring_quoted)
  have rest: "fst (iterencode_dict float_repr 2 False items 2) =
           concat (map (\<lambda>m. CHR '','' # CHR 0x0A # member_text float_repr m) items)"
    using iterencode_dict_rest [of items float_repr] assms(1) ok(2) by simp
  show ?thesis
    unfolding comma_lines_Cons list.map
    by (simp add: m seq_yield fst_seq ok v k rest member_text_def comp_def)
qed

lemma iterencode_object:
  assumes "e \<noteq> []" and "\<forall>m \<in> set e. scalar (snd m) \<and> escaped (fst m) = fst m"
    and "snd (iterencode float_repr 2 (PyDict e) 1) = None"
  shows "spaces 1 @ fst (iterencode float_repr 2 (PyDict e) 1) = object_text float_repr e"
proof -
  obtain m items where e: "e = m # items" using assms(1) by (cases e) auto
  have two: "(1::nat) + 1 = 2" by simp
  have unfold: "iterencode float_repr 2 (PyDict e) 1 =
      seq (yield (CHR ''{'' # newline_indent 2 2))
        (seq (iterencode_dict float_repr 2 True e 2) (yield (newline_indent 2 1 @ ''}'')))"
    using assms(1) by (simp only: iterencode.simps(4) two if_False)
  have ok: "snd (iterencode_dict float_repr 2 True e 2) = None"
    using assms(3) unfolding unfold by (simp only: snd_seq_None)
  have body: "spaces 2 @ fst (iterencode_dict float_repr 2 True e 2) =
           comma_lines (map (member_text float_repr) e)"
    using iterencode_dict_first [of m items float_repr] assms(2) ok unfolding e by simp
  have "fst (iterencode float_repr 2 (PyDict e) 1) =
          CHR ''{'' # CHR 0x0A # (spaces 2 @ fst (iterencode_dict float_repr 2 True e 2))
          @ CHR 0x0A # spaces 1 @ ''}''"
    unfolding unfold using ok by (simp add: seq_yield fst_seq newline_indent_spaces)
  then show ?thesis
    unfolding body by (simp add: object_text_def)
qed

lemma iterencode_list_rest:
  assumes "\<forall>e \<in> set es. e \<noteq> [] \<and> (\<forall>m \<in> set e. scalar (snd m) \<and> escaped (fst m) = fst m)"
    and "snd (iterencode_list float_repr 2 (CHR '','' # newline_indent 2 1) (map PyDict es) 1) = None"
  shows "fst (iterencode_list float_repr 2 (CHR '','' # newline_indent 2 1) (map PyDict es) 1) =
           concat (map (\<lambda>e. CHR '','' # CHR 0x0A # object_text float_repr e) es)"
  using assms
proof (induction es)
  case Nil
  show ?case by simp
next
  case (Cons e es)
  from Cons.prems(2) have ok: "snd (iterencode float_repr 2 (PyDict e) 1) = None"
    "snd (iterencode_list float_repr 2 (CHR '','' # newline_indent 2 1) (map PyDict es) 1) = None"
    by (simp_all add: snd_seq_None del: iterencode.simps One_nat_def)
  have obj: "spaces 1 @ fst (iterencode float_repr 2 (PyDict e) 1) = object_text float_repr e"
    using iterencode_object [of e float_repr] Cons.prems(1) ok(1) by simp
  have rest: "fst (iterencode_list float_repr 2 (CHR '','' # newline_indent 2 1) (map PyDict es) 1) =
           concat (map (\<lambda>e. CHR '','' # CHR 0x0A # object_text float_repr e) es)"
    using Cons.IH Cons.prems(1) ok(2) by simp
  show ?case
    using ok by (simp add: seq_yield fst_seq rest rest [unfolded newline_indent_spaces]
        obj [symmetric] newline_indent_spaces del: iterencode.simps One_nat_def)
qed

lemma iterencode_array:
  assumes "\<forall>e \<in> set es. e \<noteq> [] \<and> (\<forall>m \<in> set e. scalar (snd m) \<and> escaped (fst m) = fst m)"
    and "snd (iterencode float_repr 2 (PyList (map PyDict es)) 0) = None"
  shows "fst (iterencode float_repr 2 (PyList (map PyDict es)) 0) = array_text float_repr es"
proof (cases es)
  case Nil
  then show ?thesis by (simp add: array_text_def)
next
  case (Cons e rest)
  have one: "(0::nat) + 1 = 1" by simp
  have unfold: "iterencode float_repr 2 (PyList (map PyDict es)) 0 =
      seq (yield (CHR ''['' # newline_indent 2 1))
     (seq (iterencode float_repr 2 (PyDict e) 1)
     (seq (iterencode_list float_repr 2 (CHR '','' # newline_indent 2 1) (map PyDict rest) 1)
          (yield (newline_indent 2 0 @ '']''))))"
    unfolding Cons
    by (simp add: seq_def yield_def split: option.splits del: iterencode.simps(4) One_nat_def)
  from assms(2) have ok: "snd (iterencode float_repr 2 (PyDict e) 1) = None"
    "snd (iterencode_list float_repr 2 (CHR '','' # newline_indent 2 1) (map PyDict rest) 1) = None"
    unfolding unfold by (simp_all only: snd_seq_None)
  have obj: "spaces 1 @ fst (iterencode float_repr 2 (PyDict e) 1) = object_text float_repr e"
    using iterencode_object [of e float_repr] assms(1) ok(1) by (simp add: Cons)
  have tail: "fst (iterencode_list float_repr 2 (CHR '','' # newline_indent 2 1) (map PyDict rest) 1) =
           concat (map (\<lambda>e. CHR '','' # CHR 0x0A # object_text float_repr e) rest)"
    using iterencode_list_rest [of rest float_repr] assms(1) ok(2) by (simp add: Cons)
  have "fst (iterencode float_repr 2 (PyList (map PyDict es)) 0) =
      CHR ''['' # CHR 0x0A # (spaces 1 @ fst (iterencode float_repr 2 (PyDict e) 1))
      @ fst (iterencode_list float_repr 2 (CHR '','' # newline_indent 2 1) (map PyDict rest) 1)
      @ CHR 0x0A # '']''"
    unfolding unfold using ok
    by (simp add: seq_yield fst_seq snd_seq_None newline_indent_spaces spaces_def
        del: iterencode.simps One_nat_def)
  then show ?thesis
    unfolding obj tail
    by (simp add: array_text_def Cons comma_lines_Cons comp_def del: comma_lines.simps)
qed

lemma snd_seq_Some:
  "snd (seq a b) = Some e \<longleftrightarrow> snd a = Some e \<or> (snd a = None \<and> snd b = Some e)"
  by (cases "snd a") (simp_all add: seq_def)

lemma encode_cell_error: "snd (encode_cell float_repr c) = Some e \<Longrightarrow> e = TypeError"
  by (cases c) simp_all

lemma iterencode_error:
  "snd (iterencode float_repr indent v level) = Some e \<Longrightarrow> e = TypeError"
  "snd (iterencode_list float_repr indent buf vs level) = Some e \<Longrightarrow> e = TypeError"
  "snd (iterencode_dict float_repr indent first items level) = Some e \<Longrightarrow> e = TypeError"
proof (induction float_repr indent v level and float_repr indent buf vs level
    and float_repr indent first items level
    rule: iterencode_iterencode_list_iterencode_dict.induct)
  case (1 float_repr indent level)
  then show ?case by simp
next
  case (2 float_repr indent v level)
  then show ?case by (simp add: encode_cell_error)
next
  case (3 float_repr indent lst level)
  then show ?case by (auto simp: snd_seq_Some split: if_splits)
next
  case (4 float_repr indent dct level)
  then show ?case by (auto simp: snd_seq_Some split: if_splits)
next
  case (5 float_repr indent buf level)
  then show ?case by simp
next
  case (6 float_repr indent buf v rest level)
  then show ?case by (auto simp: snd_seq_Some)
next
  case (7 float_repr indent first level)
  then show ?case by simp
next
  case (8 float_repr indent first key v rest level)
  then show ?case by (auto simp: snd_seq_Some)
qed

lemma json_dump_error: "snd (json_dump float_repr obj indent) = Some e \<Longrightarrow> e = TypeError"
  unfolding json_dump_def by (rule iterencode_error(1))

lemma getitem_Inl_iff: "getitem row k = Inl e \<longleftrightarrow> e = KeyError k \<and> \<not> has_column row k"
  by (auto simp: getitem_def has_column_def split: option.splits)

lemma has_column_iff: "has_column row k \<longleftrightarrow> (\<exists>c. getitem row k = Inr c)"
  by (cases "getitem row k") (simp_all add: has_column_def)

lemma py_int_error: "py_int c = Inl e \<Longrightarrow> conversion_error e"
  by (induction c rule: py_int.induct) (auto simp: conversion_error_def split: option.splits)


lemma not_numeric_iff: "\<not> numeric c \<longleftrightarrow> (\<exists>e. py_int c = Inl e \<and> conversion_error e)"
  by (cases "py_int c") (auto simp: numeric_def py_int_error)

lemma key_not_conversion [simp]: "\<not> conversion_error (KeyError k)"
  by (simp add: conversion_error_def)

lemma conversion_not_missing: "conversion_error e \<Longrightarrow> \<not> missing_field_error e"
  by (auto simp: conversion_error_def)


subsection \<open>The example tables, evaluated\<close>

lemma scenario_rows: "iterrows scenario_table = [zip recognized_columns scenario_cells]"
  by (simp add: iterrows_def scenario_table_def)

lemma scenario_mapped: "map_row (zip recognized_columns scenario_cells) = Inr scenario_entry"
  by (simp add: map_row_def getitem_def recognized_columns_def read_before_rank_def
      read_after_rank_def scenario_cells_def scenario_entry_def)

lemma scenario_result: "build_result (iterrows scenario_table) [] = Inr [scenario_entry]"
  by (simp add: scenario_rows scenario_mapped)

lemma isna_iff: "isna c \<longleftrightarrow> c = PyFloat NaN"
  by (induction c rule: isna.induct) simp_all

subsection \<open>The run\<close>

lemma length_iterrows [simp]: "length (iterrows df) = length (data df)"
  by (simp add: iterrows_def)

lemma run_no_file: "csv_file fs = None \<Longrightarrow> run float_repr fs = (Some FileNotFoundError, fs)"
  by (simp add: run_def read_csv_def)

lemma run_row_error:
  "csv_file fs = Some df \<Longrightarrow> build_result (iterrows df) [] = Inl e \<Longrightarrow>
     run float_repr fs = (Some e, fs)"
  by (simp add: run_def read_csv_def)

lemma run_dump:
  "csv_file fs = Some df \<Longrightarrow> build_result (iterrows df) [] = Inr result \<Longrightarrow>
     run float_repr fs =
       (snd (json_dump float_repr (PyList (map PyDict result)) 2),
        fs\<lparr>json_file := Some (fst (json_dump float_repr (PyList (map PyDict result)) 2))\<rparr>)"
  by (simp add: run_def read_csv_def Let_def)

lemma escaped_json_keys: "k \<in> set json_keys \<Longrightarrow> escaped k = k"
  by (auto simp: json_keys_def escaped_def escape_char_def)

lemma map_row_entry:
  assumes "map_row row = Inr e"
  shows "e \<noteq> []" and "map fst e = json_keys"
    and "\<forall>m \<in> set e. scalar (snd m) \<and> escaped (fst m) = fst m"
proof -
  from assms show "e \<noteq> []" and keys: "map fst e = json_keys"
    unfolding map_row_Inr by (auto simp: json_keys_def)
  have "scalar (snd m)" if "m \<in> set e" for m
    using assms that unfolding map_row_Inr by auto
  moreover have "escaped (fst m) = fst m" if "m \<in> set e" for m
  proof -
    from that have "fst m \<in> set (map fst e)" by simp
    then show ?thesis unfolding keys by (rule escaped_json_keys)
  qed
  ultimately show "\<forall>m \<in> set e. scalar (snd m) \<and> escaped (fst m) = fst m" by blast
qed

lemma build_result_entries:
  assumes "build_result rows [] = Inr result"
  shows "length result = length rows"
    and "\<forall>i < length rows. map_row (rows ! i) = Inr (result ! i)"
    and "\<forall>e \<in> set result. \<exists>row \<in> set rows. map_row row = Inr e"
proof -
  from assms have all: "list_all2 (\<lambda>row entry. map_row row = Inr entry) rows result"
    by (simp add: build_result_Inr_iff)
  then show len: "length result = length rows"
    and nth: "\<forall>i < length rows. map_row (rows ! i) = Inr (result ! i)"
    by (simp_all add: list_all2_conv_all_nth)
  show "\<forall>e \<in> set result. \<exists>row \<in> set rows. map_row row = Inr e"
  proof
    fix e assume "e \<in> set result"
    then obtain i where i: "i < length result" "e = result ! i"
      by (auto simp: in_set_conv_nth)
    then have "map_row (rows ! i) = Inr e" using nth len by simp
    moreover have "rows ! i \<in> set rows" using i len by simp
    ultimately show "\<exists>row \<in> set rows. map_row row = Inr e" by blast
  qed
qed

lemma dump_text:
  assumes "build_result rows [] = Inr result"
    and "snd (json_dump float_repr (PyList (map PyDict result)) 2) = None"
  shows "fst (json_dump float_repr (PyList (map PyDict result)) 2) = array_text float_repr result"
proof -
  have "\<forall>e \<in> set result. e \<noteq> [] \<and> (\<forall>m \<in> set e. scalar (snd m) \<and> escaped (fst m) = fst m)"
  proof
    fix e assume "e \<in> set result"
    then obtain row where "map_row row = Inr e"
      using build_result_entries(3) [OF assms(1)] by auto
    then show "e \<noteq> [] \<and> (\<forall>m \<in> set e. scalar (snd m) \<and> escaped (fst m) = fst m)"
      using map_row_entry(1) [of row e] map_row_entry(3) [of row e] by simp
  qed
  then show ?thesis
    using assms(2) unfolding json_dump_def by (rule iterencode_array)
qed


lemma scenario_dump_ok:
  "snd (json_dump float_repr (PyList (map PyDict [scenario_entry])) 2) = None"
  by (simp add: json_dump_def scenario_entry_def snd_seq_None)

lemma scenario_run:
  "run float_repr scenario_files =
     (None, scenario_files\<lparr>json_file := Some (array_text float_repr [scenario_entry])\<rparr>)"
proof -
  have input: "csv_file scenario_files = Some scenario_table"
    by (simp add: scenario_files_def)
  have written: "fst (json_dump float_repr (PyList (map PyDict [scenario_entry])) 2) =
      array_text float_repr [scenario_entry]"
    using scenario_result scenario_dump_ok by (rule dump_text)
  show ?thesis
    unfolding run_dump [OF input scenario_result] written scenario_dump_ok ..
qed





subsection \<open>More on the examples and on escaping\<close>





lemma nameless_mapped:
  "map_row nameless_row = Inr (scenario_entry [0 := (''korean'', Val (PyFloat NaN))])"
  by (simp add: nameless_row_def map_row_def getitem_def recognized_columns_def
      read_before_rank_def read_after_rank_def scenario_cells_def scenario_entry_def)

subsection \<open>Which exception ends a row and a run\<close>

lemma and_then_getitem:
  "and_then (getitem row k) f = (case map_of row k of None \<Rightarrow> Inl (KeyError k) | Some c \<Rightarrow> f c)"
  by (simp add: getitem_def split: option.splits)




lemma map_row_error_kind:
  "map_row row = Inl e \<Longrightarrow> missing_field_error e \<or> conversion_error e"
  unfolding map_row_def and_then_getitem
  by (auto simp: and_then_def dest: py_int_error split: option.splits sum.splits)


lemma type_error_kind [simp]:
  "\<not> missing_field_error TypeError" "\<not> conversion_error TypeError"
  "\<not> missing_field_error FileNotFoundError" "\<not> conversion_error FileNotFoundError"
  by (simp_all add: conversion_error_def)

lemma build_result_error_kind:
  assumes "build_result rows [] = Inl e"
  shows "missing_field_error e \<or> conversion_error e"
proof -
  obtain i where "map_row (rows ! i) = Inl e"
    using assms unfolding build_result_Inl_iff by blast
  then show ?thesis by (rule map_row_error_kind)
qed

lemma run_cases:
  assumes "csv_file fs = Some df"
  obtains (row_error) e where "build_result (iterrows df) [] = Inl e"
      and "run float_repr fs = (Some e, fs)"
      and "missing_field_error e \<or> conversion_error e"
    | (dump_error) result where "build_result (iterrows df) [] = Inr result"
      and "snd (json_dump float_repr (PyList (map PyDict result)) 2) = Some TypeError"
      and "run float_repr fs = (Some TypeError,
             fs\<lparr>json_file := Some (fst (json_dump float_repr (PyList (map PyDict result)) 2))\<rparr>)"
    | (success) result where "build_result (iterrows df) [] = Inr result"
      and "run float_repr fs = (None, fs\<lparr>json_file := Some (array_text float_repr result)\<rparr>)"
proof (cases "build_result (iterrows df) []")
  case (Inl e)
  then show ?thesis
    using row_error [of e] run_row_error [OF assms Inl] build_result_error_kind [OF Inl] by simp
next
  case (Inr result)
  show ?thesis
  proof (cases "snd (json_dump float_repr (PyList (map PyDict result)) 2)")
    case None
    then show ?thesis
      using success [of result] Inr run_dump [OF assms Inr, of float_repr]
        dump_text [OF Inr None] by simp
  next
    case (Some e)
    then have "e = TypeError" by (rule json_dump_error)
    then show ?thesis
      using dump_error [of result] Inr Some run_dump [OF assms Inr, of float_repr] by simp
  qed
qed

subsection \<open>The counterexample tables, evaluated\<close>

lemma int_of_str_abc: "int_of_str ''abc'' = None"
  by (simp add: int_of_str_def strip_def is_space_def digits_def is_digit_def)

lemma int_abc: "py_int (PyStr ''abc'') = Inl ValueError"
  by (simp add: int_of_str_abc)


lemma wordless_result: "build_result (iterrows wordless_table) [] = Inl (KeyError ''Word'')"
  by (simp add: iterrows_def wordless_table_def map_row_def getitem_def)

lemma wordless_run: "run float_repr wordless_files = (Some (KeyError ''Word''), wordless_files)"
  by (rule run_row_error [OF _ wordless_result]) (simp add: wordless_files_def)



lemma unranked_rows:
  "iterrows unranked_table = [zip recognized_columns (scenario_cells [4 := PyStr ''abc''])]"
  by (simp add: iterrows_def unranked_table_def)

lemma unranked_result: "build_result (iterrows unranked_table) [] = Inl ValueError"
  by (simp add: unranked_rows map_row_def getitem_def int_of_str_abc recognized_columns_def
      read_before_rank_def read_after_rank_def scenario_cells_def)

lemma unranked_run: "run float_repr unranked_files = (Some ValueError, unranked_files)"
  by (rule run_row_error [OF _ unranked_result]) (simp add: unranked_files_def)

lemma integer_result: "build_result (iterrows integer_table) [] = Inr [integer_entry]"
  by (simp add: iterrows_def integer_table_def map_row_def getitem_def recognized_columns_def
      read_before_rank_def read_after_rank_def integer_entry_def)

lemma integer_dump:
  "json_dump float_repr (PyList (map PyDict [integer_entry])) 2 = (integer_written, Some TypeError)"
  by (simp add: json_dump_def integer_entry_def integer_written_def seq_def yield_def raise_def
      newline_indent_def encode_basestring_def quoted_def escape_char_def eval_nat_numeral)

lemma integer_run:
  "run float_repr integer_files =
     (Some TypeError, integer_files\<lparr>json_file := Some integer_written\<rparr>)"
proof -
  have input: "csv_file integer_files = Some integer_table"
    by (simp add: integer_files_def)
  show ?thesis
    unfolding run_dump [OF input integer_result] integer_dump by simp
qed

lemma dump_needs_numpy:
  assumes "build_result rows [] = Inr result"
    and "snd (json_dump float_repr (PyList (map PyDict result)) 2) = Some e"
  shows "\<exists>entry \<in> set result. \<exists>m \<in> set entry. numpy_scalar (snd m)"
proof (rule ccontr)
  assume none: "\<not> (\<exists>entry \<in> set result. \<exists>m \<in> set entry. numpy_scalar (snd m))"
  have value_ok: "snd (iterencode float_repr indent v level) = None"
    if "scalar v" "\<not> numpy_scalar v" for v indent level
  proof (cases v)
    case (Val c)
    with that show ?thesis by (cases c) simp_all
  qed (use that in simp_all)
  have dict_ok: "snd (iterencode_dict float_repr indent first items level) = None"
    if "\<forall>m \<in> set items. scalar (snd m) \<and> \<not> numpy_scalar (snd m)"
    for items indent first level
    using that
  proof (induction items arbitrary: first)
    case Nil
    show ?case by simp
  next
    case (Cons m items)
    obtain k v where m: "m = (k, v)" by (cases m)
    have "snd (iterencode float_repr indent v level) = None"
      using Cons.prems by (simp add: m value_ok)
    moreover have "snd (iterencode_dict float_repr indent False items level) = None"
      using Cons by simp
    ultimately show ?case by (simp add: m snd_seq_None)
  qed
  have object_ok: "snd (iterencode float_repr indent (PyDict entry) level) = None"
    if "entry \<in> set result" for entry indent level
  proof -
    from build_result_entries(3) [OF assms(1)] that
    have "\<exists>row \<in> set rows. map_row row = Inr entry" by (rule bspec)
    then obtain row where "map_row row = Inr entry" by (rule bexE)
    then have "\<forall>m \<in> set entry. scalar (snd m)"
      using map_row_entry(3) [of row entry] by simp
    moreover have "\<forall>m \<in> set entry. \<not> numpy_scalar (snd m)"
      using none that by blast
    ultimately have "snd (iterencode_dict float_repr indent first entry level') = None"
      for first level'
      by (simp add: dict_ok)
    then show ?thesis by (simp add: snd_seq_None)
  qed
  have list_ok: "snd (iterencode_list float_repr indent buf (map PyDict entries) level) = None"
    if "set entries \<subseteq> set result" for entries indent buf level
    using that
  proof (induction entries arbitrary: buf)
    case Nil
    show ?case by simp
  next
    case (Cons entry entries)
    have "entry \<in> set result"
      using Cons.prems by simp
    then have "snd (iterencode float_repr indent (PyDict entry) level) = None"
      by (rule object_ok)
    moreover have "snd (iterencode_list float_repr indent buf' (map PyDict entries) level) = None"
      for buf'
      using Cons by simp
    ultimately show ?case by (simp add: snd_seq_None del: iterencode.simps)
  qed
  have "snd (json_dump float_repr (PyList (map PyDict result)) 2) = None"
    unfolding json_dump_def using list_ok [of result] by (simp add: snd_seq_None)
  with assms(2) show False by simp
qed






section \<open>The properties of the specification\<close>

text \<open>
  C1. When the loop over the rows of a table ends, the collection holds exactly one record
  per row, and the record at each position is the one mapped from the row at that
  position. A run that succeeds has written that collection, of as many records as the
  table has rows, to the output file.
\<close>

theorem one_record_per_row:
  "(build_result (iterrows df) [] = Inr result \<longrightarrow>
      length result = length (data df) \<and>
      (\<forall>i < length (data df). map_row (iterrows df ! i) = Inr (result ! i))) \<and>
   (csv_file fs = Some df \<and> fst (run float_repr fs) = None \<longrightarrow>
      (\<exists>result. build_result (iterrows df) [] = Inr result \<and>
         length result = length (data df) \<and>
         json_file (snd (run float_repr fs)) =
           Some (fst (json_dump float_repr (PyList (map PyDict result)) 2))))"
proof (rule conjI; rule impI)
  assume "build_result (iterrows df) [] = Inr result"
  then show "length result = length (data df) \<and>
      (\<forall>i < length (data df). map_row (iterrows df ! i) = Inr (result ! i))"
    using build_result_entries(1,2) [of "iterrows df" result] by simp
next
  assume run: "csv_file fs = Some df \<and> fst (run float_repr fs) = None"
  show "\<exists>result. build_result (iterrows df) [] = Inr result \<and>
         length result = length (data df) \<and>
         json_file (snd (run float_repr fs)) =
           Some (fst (json_dump float_repr (PyList (map PyDict result)) 2))"
  proof (cases "build_result (iterrows df) []")
    case (Inl e)
    then show ?thesis using run run_row_error [of fs df e float_repr] by simp
  next
    case (Inr result)
    then have "length result = length (data df)"
      using build_result_entries(1) [of "iterrows df" result] by simp
    then show ?thesis
      using Inr run by (simp add: run_dump [of fs df result])
  qed
qed

theorem one_record_per_row_witness:
  "build_result (iterrows scenario_table) [] = Inr [scenario_entry] \<and>
   length [scenario_entry] = length (data scenario_table) \<and>
   map_row (iterrows scenario_table ! 0) = Inr ([scenario_entry] ! 0) \<and>
   csv_file scenario_files = Some scenario_table \<and>
   fst (run repr_integral scenario_files) = None \<and>
   (\<exists>result. build_result (iterrows scenario_table) [] = Inr result \<and>
      length result = length (data scenario_table) \<and>
      json_file (snd (run repr_integral scenario_files)) =
        Some (fst (json_dump repr_integral (PyList (map PyDict result)) 2)))"
proof -
  have input: "csv_file scenario_files = Some scenario_table"
    by (simp add: scenario_files_def)
  have ok: "fst (run repr_integral scenario_files) = None"
    by (simp add: scenario_run)
  have rows: "length (data scenario_table) = 1"
    by (simp add: scenario_table_def)
  show ?thesis
    using one_record_per_row [of scenario_table "[scenario_entry]" scenario_files repr_integral]
      scenario_result input ok rows
    by simp
qed




text \<open>
  C3. For every row that is mapped, the field \<open>hanja\<close> of its record is \<open>None\<close> (JSON
  \<open>null\<close>) if and only if the \<open>Hanja/Ref.\<close> cell is the missing-value marker, which is
  NaN; otherwise the field is the cell as it is.
\<close>

theorem hanja_null_iff_missing:
  assumes "map_row row = Inr e"
  shows "\<exists>h. getitem row ''Hanja/Ref.'' = Inr h \<and>
           (map_of e ''hanja'' = Some PyNone \<longleftrightarrow> isna h) \<and>
           (\<not> isna h \<longrightarrow> map_of e ''hanja'' = Some (Val h)) \<and>
           (isna h \<longleftrightarrow> h = PyFloat NaN)"
  using assms unfolding map_row_Inr by (auto simp: isna_iff)

theorem hanja_null_iff_missing_witness:
  "map_row (zip recognized_columns scenario_cells) = Inr scenario_entry \<and>
   (\<exists>h. getitem (zip recognized_columns scenario_cells) ''Hanja/Ref.'' = Inr h \<and>
           (map_of scenario_entry ''hanja'' = Some PyNone \<longleftrightarrow> isna h) \<and>
           (\<not> isna h \<longrightarrow> map_of scenario_entry ''hanja'' = Some (Val h)) \<and>
           (isna h \<longleftrightarrow> h = PyFloat NaN))"
  using hanja_null_iff_missing [OF scenario_mapped] scenario_mapped by simp

text \<open>
  C4. A run that fails while reading the table or mapping a row writes nothing: the
  files are as they were. A run that succeeds has mapped every row and the output file
  holds the whole array. The one other outcome is a \<open>TypeError\<close> of the encoder, after
  every row was mapped: it needs a NumPy scalar in a record, and the output file then holds
  the text yielded before the exception.
\<close>

theorem run_output_all_or_nothing_unless_numpy:
  "(fst (run float_repr fs) = Some err \<and> err \<noteq> TypeError \<longrightarrow> snd (run float_repr fs) = fs) \<and>
   (fst (run float_repr fs) = None \<longrightarrow>
      (\<exists>df result. csv_file fs = Some df \<and> build_result (iterrows df) [] = Inr result \<and>
         snd (run float_repr fs) = fs\<lparr>json_file := Some (array_text float_repr result)\<rparr>)) \<and>
   (fst (run float_repr fs) = Some TypeError \<longrightarrow>
      (\<exists>df result. csv_file fs = Some df \<and> build_result (iterrows df) [] = Inr result \<and>
         (\<exists>entry \<in> set result. \<exists>m \<in> set entry. numpy_scalar (snd m)) \<and>
         snd (run float_repr fs) =
           fs\<lparr>json_file := Some (fst (json_dump float_repr (PyList (map PyDict result)) 2))\<rparr>))"
proof (cases "csv_file fs")
  case None
  then show ?thesis by (simp add: run_no_file)
next
  case (Some df)
  show ?thesis
  proof (rule run_cases [OF Some, of float_repr])
    fix e
    assume "run float_repr fs = (Some e, fs)" and "missing_field_error e \<or> conversion_error e"
    then show ?thesis by auto
  next
    fix result
    assume result: "build_result (iterrows df) [] = Inr result"
      and dump: "snd (json_dump float_repr (PyList (map PyDict result)) 2) = Some TypeError"
      and run: "run float_repr fs = (Some TypeError,
             fs\<lparr>json_file := Some (fst (json_dump float_repr (PyList (map PyDict result)) 2))\<rparr>)"
    have "\<exists>entry \<in> set result. \<exists>m \<in> set entry. numpy_scalar (snd m)"
      using result dump by (rule dump_needs_numpy)
    then show ?thesis
      using Some result run by auto
  next
    fix result
    assume "build_result (iterrows df) [] = Inr result"
      and "run float_repr fs = (None, fs\<lparr>json_file := Some (array_text float_repr result)\<rparr>)"
    then show ?thesis
      using Some by auto
  qed
qed

theorem run_output_all_or_nothing_unless_numpy_witness:
  "fst (run repr_integral wordless_files) = Some (KeyError ''Word'') \<and>
   snd (run repr_integral wordless_files) = wordless_files \<and>
   fst (run repr_integral scenario_files) = None \<and>
   (\<exists>df result. csv_file scenario_files = Some df \<and>
      build_result (iterrows df) [] = Inr result \<and>
      snd (run repr_integral scenario_files) =
        scenario_files\<lparr>json_file := Some (array_text repr_integral result)\<rparr>) \<and>
   fst (run repr_integral integer_files) = Some TypeError \<and>
   (\<exists>df result. csv_file integer_files = Some df \<and>
      build_result (iterrows df) [] = Inr result \<and>
      (\<exists>entry \<in> set result. \<exists>m \<in> set entry. numpy_scalar (snd m)) \<and>
      snd (run repr_integral integer_files) =
        integer_files\<lparr>json_file := Some (fst (json_dump repr_integral (PyList (map PyDict result)) 2))\<rparr>)"
proof -
  have failed: "fst (run repr_integral wordless_files) = Some (KeyError ''Word'')"
    by (simp add: wordless_run)
  have succeeded: "fst (run repr_integral scenario_files) = None"
    by (simp add: scenario_run)
  have broken: "fst (run repr_integral integer_files) = Some TypeError"
    by (simp add: integer_run)
  note untouched = run_output_all_or_nothing_unless_numpy
    [of repr_integral wordless_files "KeyError ''Word''"]
  note everything = run_output_all_or_nothing_unless_numpy [of repr_integral scenario_files err for err]
  note part = run_output_all_or_nothing_unless_numpy [of repr_integral integer_files err for err]
  have "snd (run repr_integral wordless_files) = wordless_files"
    using untouched failed by simp
  moreover have "\<exists>df result. csv_file scenario_files = Some df \<and>
      build_result (iterrows df) [] = Inr result \<and>
      snd (run repr_integral scenario_files) =
        scenario_files\<lparr>json_file := Some (array_text repr_integral result)\<rparr>"
    using everything succeeded by blast
  moreover have "\<exists>df result. csv_file integer_files = Some df \<and>
      build_result (iterrows df) [] = Inr result \<and>
      (\<exists>entry \<in> set result. \<exists>m \<in> set entry. numpy_scalar (snd m)) \<and>
      snd (run repr_integral integer_files) =
        integer_files\<lparr>json_file := Some (fst (json_dump repr_integral (PyList (map PyDict result)) 2))\<rparr>"
    using part broken by blast
  ultimately show ?thesis
    using failed succeeded broken by simp
qed

text \<open>
  As stated for every execution, the claim fails: on a table whose columns all hold
  integers the rows are mapped, the output file is created, and the encoder raises after
  a part of the text was written.
\<close>

theorem integer_table_partial_output_counterexample:
  "csv_file integer_files = Some integer_table \<and>
   json_file integer_files = None \<and>
   build_result (iterrows integer_table) [] = Inr [integer_entry] \<and>
   fst (run repr_integral integer_files) = Some TypeError \<and>
   json_file (snd (run repr_integral integer_files)) = Some integer_written \<and>
   integer_written \<noteq> []"
proof -
  have "csv_file integer_files = Some integer_table" "json_file integer_files = None"
    by (simp_all add: integer_files_def)
  moreover have "integer_written \<noteq> []"
    by (simp add: integer_written_def)
  moreover have "fst (run repr_integral integer_files) = Some TypeError"
    "json_file (snd (run repr_integral integer_files)) = Some integer_written"
    by (simp_all add: integer_run)
  ultimately show ?thesis
    using integer_result by simp
qed




text \<open>
  C6. The field \<open>zh\<close> is \<open>None\<close> (JSON \<open>null\<close>) in the record of every row that is
  mapped, whatever the row holds, and so in every record of the collection that the loop
  builds.
\<close>

theorem zh_always_null:
  "(map_row row = Inr e \<longrightarrow> map_of e ''zh'' = Some PyNone) \<and>
   (build_result rows [] = Inr result \<longrightarrow> (\<forall>e \<in> set result. map_of e ''zh'' = Some PyNone))"
proof (intro conjI impI ballI)
  show one: "map_of e ''zh'' = Some PyNone" if "map_row row = Inr e" for row e
    using that unfolding map_row_Inr by auto
  fix e
  assume "build_result rows [] = Inr result" and "e \<in> set result"
  then obtain row where "map_row row = Inr e"
    unfolding build_result_Inr_iff by (auto simp: list_all2_conv_all_nth in_set_conv_nth)
  then show "map_of e ''zh'' = Some PyNone" by (rule one)
qed

theorem zh_always_null_witness:
  "map_row (zip recognized_columns scenario_cells) = Inr scenario_entry \<and>
   map_of scenario_entry ''zh'' = Some PyNone \<and>
   build_result (iterrows scenario_table) [] = Inr [scenario_entry] \<and>
   map_of (hd [scenario_entry]) ''zh'' = Some PyNone"
  using zh_always_null [of "zip recognized_columns scenario_cells" scenario_entry
      "iterrows scenario_table" "[scenario_entry]"]
    scenario_mapped scenario_result
  by simp



text \<open>
  C8. For a table without data rows, whatever its header and whatever the output file
  held before, the run succeeds and the output file holds exactly \<open>[]\<close>.
\<close>

theorem empty_table_writes_empty_array:
  "run float_repr \<lparr>csv_file = Some \<lparr>columns = cs, data = []\<rparr>, json_file = old\<rparr> =
     (None, \<lparr>csv_file = Some \<lparr>columns = cs, data = []\<rparr>, json_file = Some ''[]''\<rparr>)"
  by (simp add: run_def read_csv_def iterrows_def json_dump_def)

theorem empty_table_writes_empty_array_witness:
  "run repr_integral \<lparr>csv_file = Some \<lparr>columns = recognized_columns, data = []\<rparr>,
      json_file = Some ''old''\<rparr> =
     (None, \<lparr>csv_file = Some \<lparr>columns = recognized_columns, data = []\<rparr>,
        json_file = Some ''[]''\<rparr>)"
  using empty_table_writes_empty_array [of repr_integral recognized_columns "Some ''old''"]
  by simp



text \<open>
  C10. In the record of a mapped row, a missing cell (NaN) of \<open>Word\<close>, \<open>English\<close>,
  \<open>Classification\<close>, \<open>Complexity\<close>, \<open>Wordreference Link\<close> or \<open>Wiktionary Link\<close> is
  the value of its field as it is, not \<open>None\<close>, and is written as \<open>NaN\<close>. The one
  other cell besides \<open>Hanja/Ref.\<close>, \<open>Frequency Rank\<close>, is never missing in a mapped
  row.
\<close>

theorem missing_marker_passes_through:
  assumes "map_row row = Inr e"
  shows "(\<forall>(col, key) \<in> set passed_through. \<forall>c. getitem row col = Inr c \<and> isna c \<longrightarrow>
            map_of e key = Some (Val c) \<and> value_text float_repr (Val c) = ''NaN'') \<and>
         (\<forall>c. getitem row ''Frequency Rank'' = Inr c \<longrightarrow> \<not> isna c)"
  using assms unfolding map_row_Inr by (auto simp: passed_through_def isna_iff)

theorem missing_marker_passes_through_witness:
  "map_row nameless_row = Inr (scenario_entry [0 := (''korean'', Val (PyFloat NaN))]) \<and>
   (''Word'', ''korean'') \<in> set passed_through \<and>
   getitem nameless_row ''Word'' = Inr (PyFloat NaN) \<and>
   isna (PyFloat NaN) \<and>
   map_of (scenario_entry [0 := (''korean'', Val (PyFloat NaN))]) ''korean'' = Some (Val (PyFloat NaN)) \<and>
   value_text repr_integral (Val (PyFloat NaN)) = ''NaN''"
proof -
  have word: "getitem nameless_row ''Word'' = Inr (PyFloat NaN)"
    by (simp add: nameless_row_def getitem_def recognized_columns_def read_before_rank_def
        scenario_cells_def)
  have pair: "(''Word'', ''korean'') \<in> set passed_through"
    by (simp add: passed_through_def)
  show ?thesis
    using missing_marker_passes_through [OF nameless_mapped, of repr_integral] word pair
      nameless_mapped
    by auto
qed

end
